theory Spec2Isabelle
  imports Main "HOL-Library.Word" "HOL-Library.Monad_Syntax"
begin

unbundle bit_operations_syntax

section \<open>Bytes, slices and the Go runtime checks\<close>

text \<open>
  A Go byte slice is modelled as a list of 8-bit words whose capacity equals its length.
  Every operation that the Go runtime checks returns an option: \<open>None\<close> is the
  run-time panic (index or slice bounds out of range), \<open>Some\<close> the normal result.
\<close>

type_synonym u8 = "8 word"
type_synonym u16 = "16 word"
type_synonym u32 = "32 word"

text \<open>\<open>s[i]\<close>\<close>

definition index :: "u8 list \<Rightarrow> nat \<Rightarrow> u8 option" where
  "index s i = (if i < length s then Some (s ! i) else None)"

text \<open>\<open>s[lo:hi]\<close>\<close>

definition slice :: "u8 list \<Rightarrow> nat \<Rightarrow> nat \<Rightarrow> u8 list option" where
  "slice s lo hi = (if lo \<le> hi \<and> hi \<le> length s then Some (take (hi - lo) (drop lo s)) else None)"

text \<open>\<open>s[lo:]\<close>\<close>

definition slice_from :: "u8 list \<Rightarrow> nat \<Rightarrow> u8 list option" where
  "slice_from s lo = slice s lo (length s)"

text \<open>\<open>s[:hi]\<close>\<close>

definition slice_to :: "u8 list \<Rightarrow> nat \<Rightarrow> u8 list option" where
  "slice_to s hi = slice s 0 hi"

text \<open>\<open>binary.BigEndian.Uint16\<close> and \<open>Uint32\<close>: both check the last index they read.\<close>

definition Uint16 :: "u8 list \<Rightarrow> u16 option" where
  "Uint16 s = (if length s < 2 then None
               else Some (ucast (s ! 1) OR push_bit 8 (ucast (s ! 0))))"

definition Uint32 :: "u8 list \<Rightarrow> u32 option" where
  "Uint32 s = (if length s < 4 then None
               else Some (ucast (s ! 3) OR push_bit 8 (ucast (s ! 2))
                          OR push_bit 16 (ucast (s ! 1)) OR push_bit 24 (ucast (s ! 0))))"

section \<open>The decoded packet record\<close>

datatype IPProto = Junk | Fragment | ICMP | UDP | TCP

text \<open>\<open>minFrag = 60 + 20\<close>: max IPv4 header + basic TCP header.\<close>

definition minFrag :: nat where
  "minFrag = 60 + 20"

text \<open>
  The struct \<open>QDecode\<close>. Its field \<open>b\<close> is called \<open>qb\<close> here; \<open>None\<close> is the nil slice.
\<close>

record QDecode =
  qb :: "u8 list option"
  subofs :: nat
  IPProto :: IPProto
  SrcIP :: u32
  DstIP :: u32
  SrcPort :: u16
  DstPort :: u16
  TCPFlags :: u8

definition ICMPEchoReply :: u8 where "ICMPEchoReply = 0x00"
definition ICMPEchoRequest :: u8 where "ICMPEchoRequest = 0x08"
definition ICMPUnreachable :: u8 where "ICMPUnreachable = 0x03"
definition ICMPTimeExceeded :: u8 where "ICMPTimeExceeded = 0x0b"

definition TCPSyn :: u8 where "TCPSyn = 0x02"
definition TCPAck :: u8 where "TCPAck = 0x10"
definition TCPSynAck :: u8 where "TCPSynAck = TCPSyn OR TCPAck"

section \<open>Decode\<close>

text \<open>
  \<open>QDecode.Decode\<close>, statement by statement; every early \<open>return\<close> of the source is a
  \<open>Some\<close> of the record as it stands at that point. The call \<open>log.Printf\<close> on the
  short-first-fragment path writes to the log only and is left out.
\<close>

definition Decode :: "QDecode \<Rightarrow> u8 list \<Rightarrow> QDecode option" where
  "Decode q0 b =
    (let q = q0\<lparr>qb := None\<rparr> in
     if length b < 20 then Some (q\<lparr>IPProto := Junk\<rparr>)
     else do {
       b0 \<leftarrow> index b 0;
       if drop_bit 4 (b0 AND 0xF0) \<noteq> 4 then Some (q\<lparr>IPProto := Junk\<rparr>)
       else do {
         s \<leftarrow> slice b 2 4;
         n16 \<leftarrow> Uint16 s;
         let n = unat n16;
         if length b < n then Some (q\<lparr>IPProto := Junk\<rparr>)
         else do {
           s \<leftarrow> slice b 12 16;
           src \<leftarrow> Uint32 s;
           let q = q\<lparr>SrcIP := src\<rparr>;
           s \<leftarrow> slice b 16 20;
           dst \<leftarrow> Uint32 s;
           let q = q\<lparr>DstIP := dst\<rparr>;
           b0 \<leftarrow> index b 0;
           let q = q\<lparr>subofs := unat ((b0 AND 0x0F) * 4)\<rparr>;
           sub \<leftarrow> slice_from b (subofs q);
           s \<leftarrow> slice b 6 8;
           fragFlags \<leftarrow> Uint16 s;
           let moreFrags = (fragFlags AND 0x20 \<noteq> 0);
           let fragOfs = fragFlags AND 0x1FFF;
           if fragOfs = 0 then
             if moreFrags \<and> length sub < minFrag then Some (q\<lparr>IPProto := Junk\<rparr>)
             else do {
               proto \<leftarrow> index b 9;
               if proto = 1 then
                 if length sub < 8 then Some (q\<lparr>IPProto := Junk\<rparr>)
                 else Some (q\<lparr>IPProto := ICMP, SrcPort := 0, DstPort := 0, qb := Some b\<rparr>)
               else if proto = 6 then
                 if length sub < 20 then Some (q\<lparr>IPProto := Junk\<rparr>)
                 else do {
                   s \<leftarrow> slice sub 0 2;
                   sp \<leftarrow> Uint16 s;
                   s \<leftarrow> slice sub 2 4;
                   dp \<leftarrow> Uint16 s;
                   f \<leftarrow> index sub 13;
                   Some (q\<lparr>IPProto := TCP, SrcPort := sp, DstPort := dp,
                            TCPFlags := f AND 0x3F, qb := Some b\<rparr>)
                 }
               else if proto = 17 then
                 if length sub < 8 then Some (q\<lparr>IPProto := Junk\<rparr>)
                 else do {
                   s \<leftarrow> slice sub 0 2;
                   sp \<leftarrow> Uint16 s;
                   s \<leftarrow> slice sub 2 4;
                   dp \<leftarrow> Uint16 s;
                   Some (q\<lparr>IPProto := UDP, SrcPort := sp, DstPort := dp, qb := Some b\<rparr>)
                 }
               else Some (q\<lparr>IPProto := Junk\<rparr>)
             }
           else
             if fragOfs < of_nat minFrag then Some (q\<lparr>IPProto := Junk\<rparr>)
             else Some (q\<lparr>IPProto := Fragment\<rparr>)
         }
       }
     })"

section \<open>Accessors and predicates\<close>

text \<open>
  The bytes the record's view can read: a nil slice has length 0. The arguments of \<open>Sub\<close>
  are Go ints; the callers in the package pass non-negative constants, so they are naturals here.
\<close>

definition buf :: "QDecode \<Rightarrow> u8 list" where
  "buf q = (case qb q of None \<Rightarrow> [] | Some s \<Rightarrow> s)"

definition Sub :: "QDecode \<Rightarrow> nat \<Rightarrow> nat \<Rightarrow> u8 list option" where
  "Sub q begin n = slice (buf q) (subofs q + begin) (subofs q + begin + n)"

definition Trim :: "QDecode \<Rightarrow> u8 list option" where
  "Trim q = do {
     s \<leftarrow> slice (buf q) 2 4;
     n \<leftarrow> Uint16 s;
     slice_to (buf q) (unat n)
   }"

definition IsTCPSyn :: "QDecode \<Rightarrow> bool" where
  "IsTCPSyn q = (TCPFlags q AND TCPSynAck = TCPSyn)"

definition IsError :: "QDecode \<Rightarrow> bool option" where
  "IsError q =
    (if IPProto q = ICMP \<and> length (buf q) \<ge> subofs q + 8 then do {
       t \<leftarrow> index (buf q) (subofs q);
       Some (t = ICMPUnreachable \<or> t = ICMPTimeExceeded)
     }
     else Some False)"

definition IsEchoRequest :: "QDecode \<Rightarrow> bool option" where
  "IsEchoRequest q =
    (if IPProto q = ICMP \<and> length (buf q) \<ge> subofs q + 8 then do {
       t \<leftarrow> index (buf q) (subofs q);
       if t = ICMPEchoRequest then do {
         c \<leftarrow> index (buf q) (subofs q + 1);
         Some (c = 0)
       }
       else Some False
     }
     else Some False)"

definition IsEchoResponse :: "QDecode \<Rightarrow> bool option" where
  "IsEchoResponse q =
    (if IPProto q = ICMP \<and> length (buf q) \<ge> subofs q + 8 then do {
       t \<leftarrow> index (buf q) (subofs q);
       if t = ICMPEchoReply then do {
         c \<leftarrow> index (buf q) (subofs q + 1);
         Some (c = 0)
       }
       else Some False
     }
     else Some False)"

section \<open>The Internet checksum\<close>

text \<open>
  \<open>ipChecksum\<close>: the first loop adds the big-endian 16-bit words into the 32-bit
  accumulator (\<open>+\<close> on \<open>u32\<close> wraps, as \<open>uint32\<close> does) and returns the final
  \<open>i\<close>, \<open>n\<close> and \<open>ac\<close>; the second loop folds the carries.
\<close>

function ipChecksum_sum :: "u8 list \<Rightarrow> nat \<Rightarrow> nat \<Rightarrow> u32 \<Rightarrow> (nat \<times> nat \<times> u32) option" where
  "ipChecksum_sum b i n ac =
    (if n \<ge> 2 then
       (case slice b i (i + 2) of
          None \<Rightarrow> None
        | Some s \<Rightarrow>
            (case Uint16 s of
               None \<Rightarrow> None
             | Some w \<Rightarrow> ipChecksum_sum b (i + 2) (n - 2) (ac + ucast w)))
     else Some (i, n, ac))"
  by pat_completeness auto
termination
  by (relation "measure (\<lambda>(b, i, n, ac). n)") auto

text \<open>One folding step, read on the naturals: it cannot overflow.\<close>

lemma fold_step_unat:
  "unat (drop_bit 16 ac + (ac AND 0xffff) :: u32) = unat ac div 65536 + unat ac mod 65536"
proof -
  have m: "ac AND 0xffff = take_bit 16 ac"
    by (simp add: take_bit_eq_mask mask_eq_exp_minus_1)
  have hi: "unat (drop_bit 16 ac) = unat ac div 65536"
    by (simp add: drop_bit_eq_div unat_div)
  have lo: "unat (take_bit 16 ac) = unat ac mod 65536"
    by (simp add: take_bit_eq_mod unat_mod)
  have "unat ac < 4294967296"
    using unsigned_less [of ac, where 'a = nat] by simp
  moreover have "unat ac mod 65536 < 65536"
    by simp
  moreover have "unat ac div 65536 \<le> unat ac"
    by (rule div_le_dividend)
  ultimately have "unat ac div 65536 + unat ac mod 65536 < 4294967296"
    by linarith
  then show ?thesis
    by (simp add: m unat_word_ariths hi lo)
qed

function ipChecksum_fold :: "u32 \<Rightarrow> u32" where
  "ipChecksum_fold ac =
    (if drop_bit 16 ac > 0 then ipChecksum_fold (drop_bit 16 ac + (ac AND 0xffff)) else ac)"
  by pat_completeness auto
termination
proof (relation "measure unat")
  show "wf (measure (unat :: u32 \<Rightarrow> nat))"
    by simp
next
  fix ac :: u32
  assume "0 < drop_bit 16 ac"
  then have "unat (drop_bit 16 ac) \<noteq> 0"
    by (simp add: unat_eq_0 word_greater_zero_iff)
  then have "0 < unat ac div 65536"
    by (simp add: drop_bit_eq_div unat_div)
  moreover have "unat ac = 65536 * (unat ac div 65536) + unat ac mod 65536"
    by simp
  ultimately have "unat ac div 65536 + unat ac mod 65536 < unat ac"
    by linarith
  then show "(drop_bit 16 ac + (ac AND 0xffff), ac) \<in> measure unat"
    by (simp add: fold_step_unat)
qed

definition ipChecksum :: "u8 list \<Rightarrow> u16 option" where
  "ipChecksum b = do {
     (i, n, ac) \<leftarrow> ipChecksum_sum b 0 (length b) 0;
     ac \<leftarrow> (if n = 1 then do { x \<leftarrow> index b i; Some (ac + push_bit 8 (ucast x)) }
            else Some ac);
     Some (ucast (NOT (ipChecksum_fold ac)))
   }"

declare ipChecksum_sum.simps [simp del]
declare ipChecksum_fold.simps [simp del]

section \<open>Building ICMP packets\<close>

text \<open>\<open>out[i] = v\<close>\<close>

definition store :: "u8 list \<Rightarrow> nat \<Rightarrow> u8 \<Rightarrow> u8 list option" where
  "store s i v = (if i < length s then Some (s[i := v]) else None)"

text \<open>
  \<open>put16(out[lo:hi], v)\<close> and \<open>put32(out[lo:hi], v)\<close>: the slice aliases \<open>out\<close>, so
  the bytes are written into \<open>out\<close> at \<open>lo\<close>; \<open>PutUint16\<close> and \<open>PutUint32\<close> check the
  last index they write.
\<close>

definition put16 :: "u8 list \<Rightarrow> nat \<Rightarrow> nat \<Rightarrow> u16 \<Rightarrow> u8 list option" where
  "put16 s lo hi v =
    (if lo \<le> hi \<and> hi \<le> length s \<and> 2 \<le> hi - lo
     then Some (s[lo := ucast (drop_bit 8 v), lo + 1 := ucast v])
     else None)"

definition put32 :: "u8 list \<Rightarrow> nat \<Rightarrow> nat \<Rightarrow> u32 \<Rightarrow> u8 list option" where
  "put32 s lo hi v =
    (if lo \<le> hi \<and> hi \<le> length s \<and> 4 \<le> hi - lo
     then Some (s[lo := ucast (drop_bit 24 v), lo + 1 := ucast (drop_bit 16 v),
                  lo + 2 := ucast (drop_bit 8 v), lo + 3 := ucast v])
     else None)"

text \<open>\<open>copy(out[lo:], src)\<close>: copies as many bytes as both slices hold.\<close>

definition copy_to :: "u8 list \<Rightarrow> nat \<Rightarrow> u8 list \<Rightarrow> u8 list option" where
  "copy_to s lo src =
    (if lo \<le> length s
     then (let k = min (length s - lo) (length src)
           in Some (take lo s @ take k src @ drop (lo + k) s))
     else None)"

text \<open>
  \<open>GenICMP\<close>: the outer option is the panic, the inner one the nil result
  (\<open>Some None\<close> is \<open>return nil\<close>).
\<close>

definition GenICMP :: "u32 \<Rightarrow> u32 \<Rightarrow> u16 \<Rightarrow> u8 \<Rightarrow> u8 \<Rightarrow> u8 list \<Rightarrow> u8 list option option" where
  "GenICMP srcIP dstIP ipid icmpType icmpCode payload =
    (if length payload < 4 then Some None
     else if length payload > 65535 - 24 then Some None
     else do {
       let sz = 24 + length payload;
       let out = replicate (24 + length payload) 0;
       out \<leftarrow> store out 0 0x45;
       out \<leftarrow> store out 1 0x00;
       out \<leftarrow> put16 out 2 4 (of_nat sz);
       out \<leftarrow> put16 out 4 6 ipid;
       out \<leftarrow> put16 out 6 8 0;
       out \<leftarrow> store out 8 64;
       out \<leftarrow> store out 9 0x01;
       out \<leftarrow> put32 out 12 16 srcIP;
       out \<leftarrow> put32 out 16 20 dstIP;
       out \<leftarrow> store out 20 icmpType;
       out \<leftarrow> store out 21 icmpCode;
       out \<leftarrow> copy_to out 24 payload;
       hdr \<leftarrow> slice out 0 20;
       c \<leftarrow> ipChecksum hdr;
       out \<leftarrow> put16 out 10 12 c;
       c \<leftarrow> ipChecksum out;
       out \<leftarrow> put16 out 22 24 c;
       Some (Some out)
     })"

text \<open>\<open>QDecode.EchoRespond\<close>\<close>

definition EchoRespond :: "QDecode \<Rightarrow> u8 list option option" where
  "EchoRespond q = do {
     s \<leftarrow> Sub q 4 2;
     icmpid \<leftarrow> Uint16 s;
     b \<leftarrow> Trim q;
     payload \<leftarrow> slice_from b (subofs q + 4);
     GenICMP (DstIP q) (SrcIP q) icmpid ICMPEchoReply 0 payload
   }"

section \<open>Rendering\<close>

fun IPProto_String :: "IPProto \<Rightarrow> string" where
  "IPProto_String Fragment = ''Frag''"
| "IPProto_String ICMP = ''ICMP''"
| "IPProto_String UDP = ''UDP''"
| "IPProto_String TCP = ''TCP''"
| "IPProto_String Junk = ''Junk''"

text \<open>
  Modelled from the spec: the package \<open>strbuilder\<close> (\<open>tailscale.com/types/strbuilder\<close>) is
  not among the sources. A builder is the text written so far; \<open>Get\<close> returns an empty one,
  \<open>WriteString\<close> and \<open>WriteByte\<close> append, and \<open>WriteUint\<close> appends the decimal digits of
  an unsigned integer, as the rendering \<open>10.0.0.1:5000\<close> of the spec shows.
\<close>

fun decimal :: "nat \<Rightarrow> string" where
  "decimal n = (if n < 10 then [''0123456789'' ! n]
                else decimal (n div 10) @ [''0123456789'' ! (n mod 10)])"

declare decimal.simps [simp del]

definition strbuilder_Get :: string where
  "strbuilder_Get = []"

definition WriteString :: "string \<Rightarrow> string \<Rightarrow> string" where
  "WriteString sb s = sb @ s"

definition WriteByte :: "string \<Rightarrow> char \<Rightarrow> string" where
  "WriteByte sb c = sb @ [c]"

definition WriteUint :: "string \<Rightarrow> nat \<Rightarrow> string" where
  "WriteUint sb n = sb @ decimal n"

definition writeIPPort :: "string \<Rightarrow> u32 \<Rightarrow> u16 \<Rightarrow> string" where
  "writeIPPort sb ip port =
    (let sb = WriteUint sb (unat (ucast (drop_bit 24 ip) :: u8));
         sb = WriteByte sb (CHR ''.'');
         sb = WriteUint sb (unat (ucast (drop_bit 16 ip) :: u8));
         sb = WriteByte sb (CHR ''.'');
         sb = WriteUint sb (unat (ucast (drop_bit 8 ip) :: u8));
         sb = WriteByte sb (CHR ''.'');
         sb = WriteUint sb (unat (ucast ip :: u8));
         sb = WriteByte sb (CHR '':'');
         sb = WriteUint sb (unat port)
     in sb)"

text \<open>\<open>QDecode.String\<close>\<close>

definition QDecode_String :: "QDecode \<Rightarrow> string" where
  "QDecode_String q =
    (if IPProto q = Junk then ''Junk{}''
     else (let sb = strbuilder_Get;
               sb = WriteString sb (IPProto_String (IPProto q));
               sb = WriteByte sb (CHR ''{'');
               sb = writeIPPort sb (SrcIP q) (SrcPort q);
               sb = WriteString sb '' > '';
               sb = writeIPPort sb (DstIP q) (DstPort q);
               sb = WriteByte sb (CHR ''}'')
           in sb))"

section \<open>The header fields as \<open>Decode\<close> reads them\<close>

text \<open>
  Names for the values \<open>Decode\<close> computes from the first 20 bytes, used to state the
  properties: the version nibble, the declared total length, the sub-header offset, the
  fragmentation word with its offset part, the addresses, and a big-endian 16-bit read.
\<close>

definition version :: "u8 list \<Rightarrow> u8" where
  "version b = drop_bit 4 (b ! 0 AND 0xF0)"

definition total_length :: "u8 list \<Rightarrow> nat" where
  "total_length b = unat (ucast (b ! 3) OR push_bit 8 (ucast (b ! 2)) :: u16)"

definition header_length :: "u8 list \<Rightarrow> nat" where
  "header_length b = unat ((b ! 0 AND 0x0F) * 4)"

definition frag_word :: "u8 list \<Rightarrow> u16" where
  "frag_word b = ucast (b ! 7) OR push_bit 8 (ucast (b ! 6))"

definition frag_offset :: "u8 list \<Rightarrow> u16" where
  "frag_offset b = frag_word b AND 0x1FFF"

definition src_addr :: "u8 list \<Rightarrow> u32" where
  "src_addr b = ucast (b ! 15) OR push_bit 8 (ucast (b ! 14))
                  OR push_bit 16 (ucast (b ! 13)) OR push_bit 24 (ucast (b ! 12))"

definition dst_addr :: "u8 list \<Rightarrow> u32" where
  "dst_addr b = ucast (b ! 19) OR push_bit 8 (ucast (b ! 18))
                  OR push_bit 16 (ucast (b ! 17)) OR push_bit 24 (ucast (b ! 16))"

definition be16_at :: "u8 list \<Rightarrow> nat \<Rightarrow> u16" where
  "be16_at b i = ucast (b ! (i + 1)) OR push_bit 8 (ucast (b ! i))"

text \<open>Steps 1 to 3 of the decoder: long enough, version 4, not cut off.\<close>

definition ipv4_valid :: "u8 list \<Rightarrow> bool" where
  "ipv4_valid b = (20 \<le> length b \<and> version b = 4 \<and> total_length b \<le> length b)"

text \<open>The zero value of the struct: a record no packet has been decoded into.\<close>

definition QDecode_zero :: QDecode where
  "QDecode_zero = \<lparr>qb = None, subofs = 0, IPProto = Junk, SrcIP = 0, DstIP = 0,
                    SrcPort = 0, DstPort = 0, TCPFlags = 0\<rparr>"

section \<open>The checksum and the built packet as functions of the bytes\<close>

text \<open>
  The accumulator after the summation loop and the odd-byte step, as a function of the
  bytes: the sum modulo \<open>2^32\<close> of the big-endian 16-bit words, a trailing byte counted as
  the high byte of a last word.
\<close>

fun wsum :: "u8 list \<Rightarrow> u32" where
  "wsum (x # y # r) = ucast (be16_at [x, y] 0) + wsum r"
| "wsum [x] = push_bit 8 (ucast x)"
| "wsum [] = 0"

text \<open>
  The bytes of a packet \<open>GenICMP\<close> returns, as a function of its arguments and of the two
  checksums: 20 bytes of IPv4 header, 4 bytes of ICMP header, the payload.
\<close>

definition icmp_layout ::
  "u32 \<Rightarrow> u32 \<Rightarrow> u16 \<Rightarrow> u8 \<Rightarrow> u8 \<Rightarrow> u16 \<Rightarrow> u16 \<Rightarrow> u8 list \<Rightarrow> u8 list" where
  "icmp_layout srcIP dstIP ipid icmpType icmpCode c1 c2 payload =
     [0x45, 0,
      ucast (drop_bit 8 (of_nat (24 + length payload) :: u16)), ucast (of_nat (24 + length payload) :: u16),
      ucast (drop_bit 8 ipid), ucast ipid, 0, 0, 64, 1,
      ucast (drop_bit 8 c1), ucast c1,
      ucast (drop_bit 24 srcIP), ucast (drop_bit 16 srcIP), ucast (drop_bit 8 srcIP), ucast srcIP,
      ucast (drop_bit 24 dstIP), ucast (drop_bit 16 dstIP), ucast (drop_bit 8 dstIP), ucast dstIP,
      icmpType, icmpCode, ucast (drop_bit 8 c2), ucast c2] @ payload"

section \<open>What \<open>Decode\<close> returns\<close>

lemma index_ok: "i < length s \<Longrightarrow> index s i = Some (s ! i)"
  by (simp add: index_def)

lemma index_hdr: "20 \<le> length s \<Longrightarrow> i < 20 \<Longrightarrow> index s i = Some (s ! i)"
  by (simp add: index_def)

lemma slice_ok:
  "lo \<le> hi \<Longrightarrow> hi \<le> length s \<Longrightarrow> slice s lo hi = Some (take (hi - lo) (drop lo s))"
  by (simp add: slice_def)

lemma slice_from_ok: "lo \<le> length s \<Longrightarrow> slice_from s lo = Some (drop lo s)"
  by (simp add: slice_from_def slice_def)

lemma slice_from_panic: "length s < lo \<Longrightarrow> slice_from s lo = None"
  by (simp add: slice_from_def slice_def)

lemma Uint16_slice:
  "lo + 2 \<le> length s \<Longrightarrow> Uint16 (take 2 (drop lo s)) = Some (be16_at s lo)"
  by (simp add: Uint16_def be16_at_def)

lemma Uint32_slice:
  "lo + 4 \<le> length s \<Longrightarrow>
   Uint32 (take 4 (drop lo s)) =
     Some (ucast (s ! (lo + 3)) OR push_bit 8 (ucast (s ! (lo + 2)))
           OR push_bit 16 (ucast (s ! (lo + 1))) OR push_bit 24 (ucast (s ! lo)))"
  by (simp add: Uint32_def)

lemma Decode_short:
  "length b < 20 \<Longrightarrow> Decode q b = Some (q\<lparr>qb := None, IPProto := Junk\<rparr>)"
  by (simp add: Decode_def)

lemma Decode_not_v4:
  "20 \<le> length b \<Longrightarrow> version b \<noteq> 4 \<Longrightarrow>
   Decode q b = Some (q\<lparr>qb := None, IPProto := Junk\<rparr>)"
  by (simp add: Decode_def index_hdr version_def Let_def)

lemma Decode_truncated:
  "20 \<le> length b \<Longrightarrow> length b < total_length b \<Longrightarrow>
   Decode q b = Some (q\<lparr>qb := None, IPProto := Junk\<rparr>)"
  using Uint16_slice [of 2 b]
  by (simp add: Decode_def index_hdr slice_ok total_length_def be16_at_def Let_def)

lemma Decode_panic:
  "ipv4_valid b \<Longrightarrow> length b < header_length b \<Longrightarrow> Decode q b = None"
  using Uint16_slice [of 2 b] Uint32_slice [of 12 b] Uint32_slice [of 16 b]
  by (simp add: Decode_def index_hdr slice_ok total_length_def be16_at_def version_def
       header_length_def slice_from_panic Let_def ipv4_valid_def)

lemma Decode_valid:
  assumes "ipv4_valid b" "header_length b \<le> length b"
  shows "Decode q0 b = Some
    (let q = q0\<lparr>qb := None, SrcIP := src_addr b, DstIP := dst_addr b, subofs := header_length b\<rparr>;
         sublen = length b - header_length b
     in if frag_offset b = 0 then
          if frag_word b AND 0x20 \<noteq> 0 \<and> sublen < minFrag then q\<lparr>IPProto := Junk\<rparr>
          else if b ! 9 = 1 then
            if sublen < 8 then q\<lparr>IPProto := Junk\<rparr>
            else q\<lparr>IPProto := ICMP, SrcPort := 0, DstPort := 0, qb := Some b\<rparr>
          else if b ! 9 = 6 then
            if sublen < 20 then q\<lparr>IPProto := Junk\<rparr>
            else q\<lparr>IPProto := TCP, SrcPort := be16_at b (header_length b),
                   DstPort := be16_at b (header_length b + 2),
                   TCPFlags := b ! (header_length b + 13) AND 0x3F, qb := Some b\<rparr>
          else if b ! 9 = 17 then
            if sublen < 8 then q\<lparr>IPProto := Junk\<rparr>
            else q\<lparr>IPProto := UDP, SrcPort := be16_at b (header_length b),
                   DstPort := be16_at b (header_length b + 2), qb := Some b\<rparr>
          else q\<lparr>IPProto := Junk\<rparr>
        else if frag_offset b < 80 then q\<lparr>IPProto := Junk\<rparr>
        else q\<lparr>IPProto := Fragment\<rparr>)"
proof -
  have len: "20 \<le> length b" and tl: "total_length b \<le> length b"
    using assms(1) by (simp_all add: ipv4_valid_def)
  have f: "Uint16 (take 2 (drop 2 b)) = Some (of_nat (total_length b))"
       "Uint16 (take 2 (drop 6 b)) = Some (frag_word b)"
    using len Uint16_slice [of 2 b] Uint16_slice [of 6 b]
    by (simp_all add: be16_at_def total_length_def frag_word_def)
  have a: "Uint32 (take 4 (drop 12 b)) = Some (src_addr b)"
       "Uint32 (take 4 (drop 16 b)) = Some (dst_addr b)"
    using len Uint32_slice [of 12 b] Uint32_slice [of 16 b]
    by (simp_all add: src_addr_def dst_addr_def)
  have n: "unat (of_nat (total_length b) :: u16) = total_length b"
    by (simp add: total_length_def)
  have v: "drop_bit 4 (b ! 0 AND 0xF0) = 4" "unat ((b ! 0 AND 0x0F) * 4) = header_length b"
    using assms(1) by (simp_all add: version_def header_length_def ipv4_valid_def)
  have p: "header_length b + 8 \<le> length b \<Longrightarrow>
      Uint16 (take 2 (drop (header_length b) b)) = Some (be16_at b (header_length b))
    \<and> Uint16 (take 2 (drop (header_length b + 2) b)) = Some (be16_at b (header_length b + 2))"
    using Uint16_slice [of "header_length b" b] Uint16_slice [of "header_length b + 2" b]
    by simp
  show ?thesis
    using len tl assms(2) p v
    by (simp add: Decode_def index_ok index_hdr slice_ok slice_from_ok f a n minFrag_def Let_def
          frag_offset_def)
qed

text \<open>The tag of a fragment-offset-zero packet never depends on bit \<open>0x20\<close>.\<close>

lemma first_fragment_bit: "frag_offset b = 0 \<Longrightarrow> frag_word b AND 0x20 = 0"
proof -
  assume "frag_offset b = 0"
  then have "(frag_word b AND 0x1FFF) AND 0x20 = 0"
    by (simp add: frag_offset_def)
  then show ?thesis
    by (simp add: and.assoc)
qed

section \<open>The checksum as a sum of words\<close>

lemma ipChecksum_sum_wsum:
  "i + n = length b \<Longrightarrow>
   \<exists>j m a. ipChecksum_sum b i n ac = Some (j, m, a)
     \<and> (if m = 1 then index b j \<bind> (\<lambda>x. Some (a + push_bit 8 (ucast x))) else Some a)
         = Some (ac + wsum (drop i b))"
proof (induction b i n ac rule: ipChecksum_sum.induct)
  case (1 b i n ac)
  show ?case
  proof (cases "2 \<le> n")
    case True
    with "1.prems" have i2: "i + 2 \<le> length b"
      by simp
    have sl: "slice b i (i + 2) = Some (take 2 (drop i b))"
      using i2 by (simp add: slice_ok)
    have u: "Uint16 (take 2 (drop i b)) = Some (be16_at b i)"
      using i2 by (rule Uint16_slice)
    have d: "drop i b = b ! i # b ! (i + 1) # drop (i + 2) b"
      using i2 by (simp add: Cons_nth_drop_Suc)
    have w: "wsum (drop i b) = ucast (be16_at b i) + wsum (drop (i + 2) b)"
      by (subst d) (simp add: be16_at_def)
    from "1.prems" True have "i + 2 + (n - 2) = length b"
      by simp
    from "1.IH" [OF True sl u this]
    obtain j m a where
      r: "ipChecksum_sum b (i + 2) (n - 2) (ac + ucast (be16_at b i)) = Some (j, m, a)"
      and o: "(if m = 1 then index b j \<bind> (\<lambda>x. Some (a + push_bit 8 (ucast x))) else Some a)
            = Some (ac + ucast (be16_at b i) + wsum (drop (i + 2) b))"
      by blast
    have "ipChecksum_sum b i n ac = Some (j, m, a)"
      using True sl u r by (subst ipChecksum_sum.simps) simp
    with o w show ?thesis
      by (simp add: add.assoc)
  next
    case False
    then have r: "ipChecksum_sum b i n ac = Some (i, n, ac)"
      by (subst ipChecksum_sum.simps) simp
    show ?thesis
    proof (cases "n = 1")
      case True
      with "1.prems" have "drop i b = [b ! i]" "i < length b"
        by (simp_all add: Cons_nth_drop_Suc [symmetric])
      with r True show ?thesis
        by (simp add: index_ok)
    next
      case False
      with \<open>\<not> 2 \<le> n\<close> "1.prems" have "n = 0" "drop i b = []"
        by simp_all
      with r show ?thesis
        by simp
    qed
  qed
qed

lemma ipChecksum_eq: "ipChecksum b = Some (ucast (NOT (ipChecksum_fold (wsum b))))"
proof -
  from ipChecksum_sum_wsum [of 0 "length b" b 0]
  obtain j m a where "ipChecksum_sum b 0 (length b) 0 = Some (j, m, a)"
    and "(if m = 1 then index b j \<bind> (\<lambda>x. Some (a + push_bit 8 (ucast x))) else Some a)
          = Some (wsum b)"
    by auto
  then show ?thesis
    by (simp add: ipChecksum_def)
qed

lemma unat_ucast_not:
  fixes w :: u32
  assumes "unat w < 65536"
  shows "unat (ucast (ucast (NOT w) :: u16) :: u32) = 65535 - unat w"
proof -
  have le: "w \<le> 0xFFFF"
    using assms by (simp add: word_le_nat_alt)
  have "unat (take_bit 16 w) = unat w"
    using assms by (simp add: take_bit_eq_mod unat_mod)
  then have tb: "take_bit 16 w = w"
    by (simp add: word_unat_eq_iff)
  have "(ucast (ucast (NOT w) :: u16) :: u32) = take_bit 16 (NOT w)"
    by (simp add: unsigned_ucast_eq)
  also have "\<dots> = mask 16 - take_bit 16 w"
    by (rule take_bit_not_eq_mask_diff)
  also have "\<dots> = 0xFFFF - w"
    by (simp add: tb mask_eq_exp_minus_1)
  finally show ?thesis
    using le by (simp add: unat_sub)
qed

lemma refold_arith:
  fixes x f :: nat
  assumes "x < 4294967296" "f < 65536" "f mod 65535 = x mod 65535" "f = 0 \<longleftrightarrow> x = 0"
  shows "x + (65535 - f) < 4294967296 \<and> (x + (65535 - f)) mod 65535 = 0 \<and> 0 < x + (65535 - f)"
proof (cases "f = 65535")
  case True
  with assms show ?thesis by simp
next
  case False
  with assms(2) have fl: "f < 65535" by simp
  define q where "q = x div 65535"
  from fl assms(3) have "x mod 65535 = f" by simp
  then have x: "x = 65535 * q + f"
    unfolding q_def using div_mult_mod_eq [of x 65535] by simp
  have t: "x + (65535 - f) = 65535 * q + 65535"
    using x fl by simp
  have "q \<le> 65536"
  proof (rule ccontr)
    assume "\<not> q \<le> 65536"
    then have "65537 \<le> q" by simp
    with x assms(1) have "x = 4294967295 \<and> f = 0" by linarith
    with assms(4) show False by simp
  qed
  then have "65535 * q + 65535 < 4294967296" by linarith
  with t show ?thesis by simp
qed

lemma fold_props:
  "unat (ipChecksum_fold ac) < 65536
   \<and> unat (ipChecksum_fold ac) mod 65535 = unat ac mod 65535
   \<and> (ipChecksum_fold ac = 0 \<longleftrightarrow> ac = 0)"
proof (induction ac rule: ipChecksum_fold.induct)
  case (1 ac)
  define d where "d = unat ac div 65536"
  define m where "m = unat ac mod 65536"
  have ac: "unat ac = 65536 * d + m"
    by (simp add: d_def m_def)
  have dz: "0 < drop_bit 16 ac \<longleftrightarrow> 0 < d"
    by (simp add: d_def word_greater_zero_iff unat_eq_0 [symmetric] drop_bit_eq_div unat_div
          del: unat_eq_0)
  show ?case
  proof (cases "0 < drop_bit 16 ac")
    case True
    then have f: "ipChecksum_fold ac = ipChecksum_fold (drop_bit 16 ac + (ac AND 0xffff))"
      by (subst ipChecksum_fold.simps) simp
    have s: "unat (drop_bit 16 ac + (ac AND 0xffff)) = d + m"
      by (simp add: fold_step_unat d_def m_def)
    have "65536 * d + m = d + m + 65535 * d"
      by simp
    then have "(65536 * d + m) mod 65535 = (d + m) mod 65535"
      by (simp only: mod_mult_self2)
    then have md: "(d + m) mod 65535 = unat ac mod 65535"
      by (simp only: ac)
    from True dz have "0 < d" by simp
    then have nz: "drop_bit 16 ac + (ac AND 0xffff) \<noteq> 0" "ac \<noteq> 0"
      using s ac by (auto simp: unat_eq_0 [symmetric] simp del: unat_eq_0)
    from "1.IH" [OF True] show ?thesis
      by (simp add: f s md nz)
  next
    case False
    then have f: "ipChecksum_fold ac = ac"
      by (subst ipChecksum_fold.simps) simp
    from False dz have "d = 0" by simp
    with ac have "unat ac < 65536"
      by (simp add: m_def)
    with f show ?thesis by simp
  qed
qed

lemma fold_refill:
  fixes s :: u32
  shows "ipChecksum_fold (s + ucast (ucast (NOT (ipChecksum_fold s)) :: u16)) = 0xFFFF"
proof -
  define f where "f = unat (ipChecksum_fold s)"
  define c where "c = (ucast (ucast (NOT (ipChecksum_fold s)) :: u16) :: u32)"
  from fold_props [of s]
  have p: "f < 65536" "f mod 65535 = unat s mod 65535" "f = 0 \<longleftrightarrow> unat s = 0"
    by (simp_all add: f_def unat_eq_0)
  have sx: "unat s < 4294967296"
    using unsigned_less [of s, where 'a = nat] by simp
  have uc: "unat c = 65535 - f"
    unfolding c_def f_def using p(1) by (simp add: unat_ucast_not f_def)
  from refold_arith [OF sx p]
  have a: "unat s + (65535 - f) < 4294967296" "(unat s + (65535 - f)) mod 65535 = 0"
      "0 < unat s + (65535 - f)"
    by simp_all
  have t: "unat (s + c) = unat s + (65535 - f)"
    using a(1) uc unat_add_lem [of s c] by simp
  define g where "g = unat (ipChecksum_fold (s + c))"
  have "s + c \<noteq> 0"
    using t a(3) by auto
  with fold_props [of "s + c"] t a
  have "g < 65536" "g mod 65535 = 0" "g \<noteq> 0"
    by (simp_all add: g_def unat_eq_0)
  then have "g = 65535"
    by (auto elim!: dvdE simp: mod_eq_0_iff_dvd)
  then have "unat (ipChecksum_fold (s + c)) = unat (0xFFFF :: u32)"
    by (simp add: g_def)
  then show ?thesis
    unfolding c_def by (simp only: word_unat_eq_iff)
qed

lemma be16_at_Cons2: "be16_at (x # y # r) (Suc (Suc i)) = be16_at r i"
  by (simp add: be16_at_def)

lemma wsum_field:
  "2 * k + 1 < length b \<Longrightarrow>
   wsum b = wsum (b[2 * k := 0, 2 * k + 1 := 0]) + ucast (be16_at b (2 * k))"
proof (induction b arbitrary: k rule: wsum.induct)
  case (1 x y r)
  show ?case
  proof (cases k)
    case 0
    then show ?thesis
      by (simp add: be16_at_def)
  next
    case (Suc j)
    with "1.prems" have "2 * j + 1 < length r"
      by simp
    from "1.IH" [OF this] Suc show ?thesis
      by (simp add: be16_at_Cons2)
  qed
next
  case (2 x)
  then show ?case by simp
next
  case 3
  then show ?case by simp
qed

lemma checksum_verifies:
  assumes "2 * k + 1 < length b"
    and "ipChecksum (b[2 * k := 0, 2 * k + 1 := 0]) = Some (be16_at b (2 * k))"
  shows "ipChecksum b = Some 0"
proof -
  let ?z = "b[2 * k := 0, 2 * k + 1 := 0]"
  from assms(2) have c: "be16_at b (2 * k) = ucast (NOT (ipChecksum_fold (wsum ?z)))"
    by (simp add: ipChecksum_eq)
  have "wsum b = wsum ?z + ucast (be16_at b (2 * k))"
    using assms(1) by (rule wsum_field)
  then have "ipChecksum_fold (wsum b) = 0xFFFF"
    by (simp only: c fold_refill)
  then show ?thesis
    by (simp add: ipChecksum_eq)
qed

section \<open>The packets \<open>GenICMP\<close> builds\<close>

lemma list_update_Cons_numeral:
  "(x # xs)[numeral v := y] = x # xs[numeral v - 1 := y]"
  by (simp add: numeral_eq_Suc)

lemma replicate_24: "replicate (24 + n) x =
  [x,x,x,x, x,x,x,x, x,x,x,x, x,x,x,x, x,x,x,x, x,x,x,x] @ replicate n x"
  by (simp add: replicate_add eval_nat_numeral)

lemma GenICMP_absent:
  "length p < 4 \<or> 65511 < length p \<Longrightarrow> GenICMP s d i t c p = Some None"
  by (auto simp: GenICMP_def)

lemma GenICMP_ok:
  assumes "4 \<le> length p" "length p \<le> 65511"
  shows "GenICMP s d i t c p = Some (Some
    (icmp_layout s d i t c
       (the (ipChecksum (take 20 (icmp_layout s d i t c 0 0 p))))
       (the (ipChecksum (icmp_layout s d i t c
               (the (ipChecksum (take 20 (icmp_layout s d i t c 0 0 p)))) 0 p)))
       p))"
proof -
  have g: "\<not> length p < 4" "\<not> 65535 - 24 < length p"
    using assms by simp_all
  show ?thesis
    unfolding GenICMP_def
    apply (simp only: g if_False)
    apply (simp add: store_def put16_def put32_def copy_to_def slice_def Let_def
        replicate_24 list_update_append1 list_update_Cons_numeral ipChecksum_eq icmp_layout_def)
    done
qed

lemma be16_bytes:
  fixes w :: u16
  shows "ucast (ucast w :: u8) OR push_bit 8 (ucast (ucast (drop_bit 8 w) :: u8)) = w"
  by (rule bit_word_eqI) (auto simp: bit_simps)

lemma be32_bytes:
  fixes w :: u32
  shows "ucast (ucast w :: u8) OR push_bit 8 (ucast (ucast (drop_bit 8 w) :: u8))
         OR push_bit 16 (ucast (ucast (drop_bit 16 w) :: u8))
         OR push_bit 24 (ucast (ucast (drop_bit 24 w) :: u8)) = w"
proof (rule bit_word_eqI)
  fix n
  assume "n < LENGTH(32)"
  then consider "n < 8" | "8 \<le> n" "n < 16" | "16 \<le> n" "n < 24" | "24 \<le> n" "n < 32"
    by fastforce
  then show "bit (ucast (ucast w :: u8) OR push_bit 8 (ucast (ucast (drop_bit 8 w) :: u8))
         OR push_bit 16 (ucast (ucast (drop_bit 16 w) :: u8))
         OR push_bit 24 (ucast (ucast (drop_bit 24 w) :: u8)) :: u32) n = bit w n"
    by cases (auto simp: bit_simps)
qed

lemma layout_length [simp]: "length (icmp_layout s d i t c c1 c2 p) = 24 + length p"
  by (simp add: icmp_layout_def)

lemma unat_size:
  "n \<le> 65511 \<Longrightarrow> unat (of_nat (24 + n) :: u16) = 24 + n"
  by (rule of_nat_inverse) simp_all

lemma layout_total_length:
  "length p \<le> 65511 \<Longrightarrow> total_length (icmp_layout s d i t c c1 c2 p) = 24 + length p"
  using unat_size [of "length p"]
  by (simp add: icmp_layout_def total_length_def be16_bytes del: of_nat_add)

lemma layout_valid:
  "length p \<le> 65511 \<Longrightarrow> ipv4_valid (icmp_layout s d i t c c1 c2 p)"
  by (simp add: ipv4_valid_def layout_total_length) (simp add: icmp_layout_def version_def)

lemma layout_fields:
  "header_length (icmp_layout s d i t c c1 c2 p) = 20"
  "frag_word (icmp_layout s d i t c c1 c2 p) = 0"
  "frag_offset (icmp_layout s d i t c c1 c2 p) = 0"
  "icmp_layout s d i t c c1 c2 p ! 9 = 1"
  "icmp_layout s d i t c c1 c2 p ! 20 = t"
  "icmp_layout s d i t c c1 c2 p ! 21 = c"
  "src_addr (icmp_layout s d i t c c1 c2 p) = s"
  "dst_addr (icmp_layout s d i t c c1 c2 p) = d"
  by (simp_all add: icmp_layout_def header_length_def frag_word_def frag_offset_def
        src_addr_def dst_addr_def be32_bytes)

lemma Decode_layout:
  assumes "4 \<le> length p" "length p \<le> 65511"
  shows "Decode q (icmp_layout s d i t c c1 c2 p) =
           Some (q\<lparr>SrcIP := s, DstIP := d, subofs := 20, IPProto := ICMP,
                    SrcPort := 0, DstPort := 0, qb := Some (icmp_layout s d i t c c1 c2 p)\<rparr>)"
proof -
  have "header_length (icmp_layout s d i t c c1 c2 p) \<le> length (icmp_layout s d i t c c1 c2 p)"
    by (simp add: layout_fields)
  from Decode_valid [OF layout_valid [OF assms(2)] this, of q] assms(1) show ?thesis
    by (simp add: layout_fields Let_def)
qed

lemma ipChecksum_the: "ipChecksum b = Some (the (ipChecksum b))"
  by (simp add: ipChecksum_eq)

lemma GenICMP_cases:
  assumes "GenICMP s d i t c p = Some (Some out)"
  obtains c1 c2 where "4 \<le> length p" "length p \<le> 65511"
    "ipChecksum (take 20 (icmp_layout s d i t c 0 0 p)) = Some c1"
    "ipChecksum (icmp_layout s d i t c c1 0 p) = Some c2"
    "out = icmp_layout s d i t c c1 c2 p"
proof -
  have r: "4 \<le> length p" "length p \<le> 65511"
    using assms GenICMP_absent [of p s d i t c] by (auto simp: not_less [symmetric])
  from GenICMP_ok [OF r, of s d i t c] assms
  have "out = icmp_layout s d i t c
       (the (ipChecksum (take 20 (icmp_layout s d i t c 0 0 p))))
       (the (ipChecksum (icmp_layout s d i t c
               (the (ipChecksum (take 20 (icmp_layout s d i t c 0 0 p)))) 0 p)))
       p"
    by simp
  with r that ipChecksum_the show ?thesis
    by blast
qed

lemma layout_header_checksum:
  assumes "ipChecksum (take 20 (icmp_layout s d i t c 0 0 p)) = Some c1"
  shows "ipChecksum (take 20 (icmp_layout s d i t c c1 c2 p)) = Some 0"
proof -
  let ?h = "take 20 (icmp_layout s d i t c c1 c2 p)"
  have z: "?h[2 * 5 := 0, 2 * 5 + 1 := 0] = take 20 (icmp_layout s d i t c 0 0 p)"
    by (simp add: icmp_layout_def list_update_Cons_numeral)
  have f: "be16_at ?h (2 * 5) = c1"
    by (simp add: icmp_layout_def be16_at_def be16_bytes)
  have l: "2 * 5 + 1 < length ?h"
    by simp
  show ?thesis
    by (rule checksum_verifies [OF l]) (simp only: z f assms)
qed

lemma layout_packet_checksum:
  assumes "ipChecksum (icmp_layout s d i t c c1 0 p) = Some c2"
  shows "ipChecksum (icmp_layout s d i t c c1 c2 p) = Some 0"
proof -
  let ?o = "icmp_layout s d i t c c1 c2 p"
  have z: "?o[2 * 11 := 0, 2 * 11 + 1 := 0] = icmp_layout s d i t c c1 0 p"
    by (simp add: icmp_layout_def list_update_Cons_numeral)
  have f: "be16_at ?o (2 * 11) = c2"
    by (simp add: icmp_layout_def be16_at_def be16_bytes)
  have l: "2 * 11 + 1 < length ?o"
    by simp
  show ?thesis
    by (rule checksum_verifies [OF l]) (simp only: z f assms)
qed

lemma IsEchoRequest_layout:
  "4 \<le> length p \<Longrightarrow>
   IsEchoRequest (q\<lparr>SrcIP := s, DstIP := d, subofs := 20, IPProto := ICMP,
                     SrcPort := 0, DstPort := 0, qb := Some (icmp_layout s d i t c c1 c2 p)\<rparr>)
     = Some (t = ICMPEchoRequest \<and> c = 0)"
  by (simp add: IsEchoRequest_def buf_def index_ok layout_fields)

lemma Decode_cases:
  assumes "Decode q b = Some r"
  obtains (junk) "r = q\<lparr>qb := None, IPProto := Junk\<rparr>"
  | (valid) "ipv4_valid b" "header_length b \<le> length b"
proof (cases "ipv4_valid b")
  case False
  then consider "length b < 20" | "20 \<le> length b" "version b \<noteq> 4"
    | "20 \<le> length b" "length b < total_length b"
    unfolding ipv4_valid_def by linarith
  then have "Decode q b = Some (q\<lparr>qb := None, IPProto := Junk\<rparr>)"
    by cases (simp_all add: Decode_short Decode_not_v4 Decode_truncated)
  with assms junk show ?thesis by simp
next
  case True
  with assms Decode_panic [of b q] have "header_length b \<le> length b"
    by (cases "header_length b \<le> length b") (simp_all add: not_le)
  with True valid show ?thesis by simp
qed

lemma Decode_ICMP:
  assumes "Decode q0 b = Some q" "IPProto q = ICMP"
  shows "ipv4_valid b \<and> qb q = Some b \<and> subofs q = header_length b
       \<and> header_length b + 8 \<le> length b
       \<and> SrcIP q = src_addr b \<and> DstIP q = dst_addr b"
  using assms(1)
proof (cases rule: Decode_cases)
  case junk
  with assms(2) show ?thesis by simp
next
  case valid
  from Decode_valid [OF valid, of q0] assms valid show ?thesis
    by (auto simp: Let_def split: if_splits)
qed

lemma IsEchoRequest_ICMP: "IsEchoRequest q = Some True \<Longrightarrow> IPProto q = ICMP"
  by (auto simp: IsEchoRequest_def split: if_splits)

lemma EchoRespond_eq:
  assumes "ipv4_valid b" "qb q = Some b" "subofs q + 8 \<le> length b"
    and "subofs q + 4 \<le> total_length b"
  shows "EchoRespond q =
           GenICMP (DstIP q) (SrcIP q) (be16_at b (subofs q + 4)) 0 0
             (drop (subofs q + 4) (take (total_length b) b))"
proof -
  have len: "20 \<le> length b" and tl: "total_length b \<le> length b"
    using assms(1) by (simp_all add: ipv4_valid_def)
  have s: "Sub q 4 2 = Some (take 2 (drop (subofs q + 4) b))"
    using assms(2,3) by (simp add: Sub_def buf_def slice_def)
  have i: "Uint16 (take 2 (drop (subofs q + 4) b)) = Some (be16_at b (subofs q + 4))"
    using assms(3) by (simp add: Uint16_slice)
  have "Uint16 (take 2 (drop 2 b)) = Some (of_nat (total_length b))"
    using len Uint16_slice [of 2 b] by (simp add: be16_at_def total_length_def)
  moreover have "unat (of_nat (total_length b) :: u16) = total_length b"
    by (simp add: total_length_def)
  ultimately have t: "Trim q = Some (take (total_length b) b)"
    using assms(2) len tl by (simp add: Trim_def buf_def slice_ok slice_to_def)
  have p: "slice_from (take (total_length b) b) (subofs q + 4)
             = Some (drop (subofs q + 4) (take (total_length b) b))"
    using assms(4) tl by (simp add: slice_from_ok)
  show ?thesis
    by (simp add: EchoRespond_def s i t p ICMPEchoReply_def)
qed

lemma layout_payload:
  "drop 24 (icmp_layout s d i t c c1 c2 p) = p"
  "2 \<le> length p \<Longrightarrow> be16_at (icmp_layout s d i t c c1 c2 p) 24 = be16_at p 0"
  by (simp_all add: icmp_layout_def be16_at_def nth_append)

lemma GenICMP_example:
  "GenICMP 0x01020304 0x05060708 42 8 0 [1, 2, 3, 4] =
     Some (Some [0x45,0,0,28, 0,42,0,0, 64,1,0x6A,0xA4, 1,2,3,4, 5,6,7,8, 8,0,0xF3,0xF9, 1,2,3,4])"
  using GenICMP_ok [of "[1, 2, 3, 4]" "0x01020304" "0x05060708" 42 8 0]
  by (simp add: icmp_layout_def ipChecksum_eq be16_at_def ipChecksum_fold.simps)

lemma ipChecksum_example:
  "ipChecksum [0x45,0,0,28, 0,42,0,0, 64,1,0,0, 1,2,3,4, 5,6,7,8] = Some 0x6AA4"
  by (simp add: ipChecksum_eq be16_at_def ipChecksum_fold.simps)

text \<open>
  \<open>Decode\<close> panics on exactly the buffers that pass the three validation steps and
  whose sub-header offset lies beyond their end.
\<close>

lemma Decode_panics_iff:
  "Decode q b = None \<longleftrightarrow> ipv4_valid b \<and> length b < header_length b"
proof
  assume n: "Decode q b = None"
  show "ipv4_valid b \<and> length b < header_length b"
  proof (rule ccontr)
    assume "\<not> (ipv4_valid b \<and> length b < header_length b)"
    then consider "length b < 20" | "20 \<le> length b" "version b \<noteq> 4"
      | "20 \<le> length b" "length b < total_length b"
      | "ipv4_valid b" "header_length b \<le> length b"
      unfolding ipv4_valid_def by linarith
    then have "Decode q b \<noteq> None"
      by cases (simp_all add: Decode_short Decode_not_v4 Decode_truncated Decode_valid)
    with n show False by simp
  qed
next
  assume "ipv4_valid b \<and> length b < header_length b"
  then show "Decode q b = None"
    by (simp add: Decode_panic)
qed

text \<open>
  \<open>EchoRespond\<close> panics on an echo request whose declared total length ends before the
  fifth byte of the sub-header: here 28 bytes that declare 20. \<open>Decode\<close> classifies them
  as ICMP and \<open>IsEchoRequest\<close> is true.
\<close>

lemma EchoRespond_panics_example:
  "Decode QDecode_zero [0x45,0,0,20, 0,0,0,0, 64,1,0,0, 10,0,0,1, 10,0,0,2, 8,0,0,0, 0,7,0,1]
     = Some \<lparr>qb = Some [0x45,0,0,20, 0,0,0,0, 64,1,0,0, 10,0,0,1, 10,0,0,2, 8,0,0,0, 0,7,0,1],
             subofs = 20, IPProto = ICMP, SrcIP = 0x0A000001, DstIP = 0x0A000002,
             SrcPort = 0, DstPort = 0, TCPFlags = 0\<rparr>
   \<and> IsEchoRequest
        \<lparr>qb = Some [0x45,0,0,20, 0,0,0,0, 64,1,0,0, 10,0,0,1, 10,0,0,2, 8,0,0,0, 0,7,0,1],
         subofs = 20, IPProto = ICMP, SrcIP = 0x0A000001, DstIP = 0x0A000002,
         SrcPort = 0, DstPort = 0, TCPFlags = 0\<rparr> = Some True
   \<and> EchoRespond
        \<lparr>qb = Some [0x45,0,0,20, 0,0,0,0, 64,1,0,0, 10,0,0,1, 10,0,0,2, 8,0,0,0, 0,7,0,1],
         subofs = 20, IPProto = ICMP, SrcIP = 0x0A000001, DstIP = 0x0A000002,
         SrcPort = 0, DstPort = 0, TCPFlags = 0\<rparr> = None"
proof -
  let ?b = "[0x45,0,0,20, 0,0,0,0, 64,1,0,0, 10,0,0,1, 10,0,0,2, 8,0,0,0, 0,7,0,1] :: u8 list"
  have v: "ipv4_valid ?b" "header_length ?b \<le> length ?b"
    by (simp_all add: ipv4_valid_def version_def total_length_def header_length_def)
  show ?thesis
    by (simp add: Decode_valid [OF v] frag_offset_def frag_word_def header_length_def
          src_addr_def dst_addr_def QDecode_zero_def IsEchoRequest_def index_def
          ICMPEchoRequest_def EchoRespond_def Sub_def Trim_def buf_def slice_def slice_to_def
          slice_from_def Uint16_def)
qed

section \<open>The claims\<close>

text \<open>
  C1. \<open>Decode\<close> does not return normally on every buffer. On this 20-byte buffer the
  version nibble is 4, the declared total length is 20 and the header-length nibble is 15:
  the sub-header offset is 60, and the slice \<open>b[q.subofs:]\<close> panics.
\<close>

theorem C1_Decode_panics:
  "Decode q [0x4F,0,0,20, 0,0,0,0, 64,6,0,0, 10,0,0,1, 10,0,0,2] = None"
  by (rule Decode_panic) (simp_all add: ipv4_valid_def version_def total_length_def header_length_def)

text \<open>
  C2. A first fragment with the more-fragments flag (bit \<open>0x2000\<close> of bytes 6 and 7) set and
  8 bytes after the IP header is not classified as Junk: \<open>Decode\<close> tests bit \<open>0x20\<close> of the
  word, and returns the UDP record.
\<close>

theorem C2_short_first_fragment_passes:
  "Decode QDecode_zero
     [0x45,0,0,28, 0,0,0x20,0, 64,17,0,0, 10,0,0,1, 10,0,0,2, 0x13,0x88,0,53, 0,8,0,0]
   = Some \<lparr>qb = Some [0x45,0,0,28, 0,0,0x20,0, 64,17,0,0, 10,0,0,1, 10,0,0,2,
                       0x13,0x88,0,53, 0,8,0,0],
           subofs = 20, IPProto = UDP, SrcIP = 0x0A000001, DstIP = 0x0A000002,
           SrcPort = 5000, DstPort = 53, TCPFlags = 0\<rparr>"
proof -
  let ?b = "[0x45,0,0,28, 0,0,0x20,0, 64,17,0,0, 10,0,0,1, 10,0,0,2,
            0x13,0x88,0,53, 0,8,0,0] :: u8 list"
  have v: "ipv4_valid ?b" "header_length ?b \<le> length ?b"
    by (simp_all add: ipv4_valid_def version_def total_length_def header_length_def)
  show ?thesis
    by (simp add: Decode_valid [OF v] frag_offset_def frag_word_def header_length_def
          src_addr_def dst_addr_def be16_at_def QDecode_zero_def)
qed

text \<open>
  C3 (as amended). For a buffer that passes the validation steps, whose sub-header offset
  lies within the buffer and whose fragment offset is not zero: with a fragment offset below
  10 (the 80 bytes of \<open>minFrag\<close> in 8-byte units) \<open>Decode\<close> classifies it as Junk; with a
  fragment offset of 80 or more \<open>Decode\<close> classifies it as Fragment and leaves the source
  port, the destination port and the TCP flags of the record as they were before the call.
\<close>

theorem C3_later_fragment:
  assumes "ipv4_valid b" "header_length b \<le> length b" "frag_offset b \<noteq> 0"
  shows "(frag_offset b < 10 \<longrightarrow> map_option IPProto (Decode q b) = Some Junk)
       \<and> (80 \<le> frag_offset b \<longrightarrow>
            (\<exists>r. Decode q b = Some r \<and> IPProto r = Fragment
                 \<and> SrcPort r = SrcPort q \<and> DstPort r = DstPort q \<and> TCPFlags r = TCPFlags q))"
proof -
  have "frag_offset b < 10 \<Longrightarrow> frag_offset b < 80"
    by (simp add: word_less_nat_alt)
  moreover have "80 \<le> frag_offset b \<Longrightarrow> \<not> frag_offset b < 80"
    by (simp add: not_less)
  ultimately show ?thesis
    using assms(3) by (auto simp: Decode_valid [OF assms(1,2)] Let_def)
qed

theorem C3_witness:
  "map_option IPProto (Decode QDecode_zero
      [0x45,0,0,28, 0,0,0,5, 64,17,0,0, 10,0,0,1, 10,0,0,2, 0,0,0,0, 0,0,0,0]) = Some Junk
   \<and> (\<exists>r. Decode QDecode_zero
             [0x45,0,0,28, 0,0,0,80, 64,17,0,0, 10,0,0,1, 10,0,0,2, 0,0,0,0, 0,0,0,0] = Some r
          \<and> IPProto r = Fragment \<and> SrcPort r = 0 \<and> DstPort r = 0 \<and> TCPFlags r = 0)"
proof -
  let ?a = "[0x45,0,0,28, 0,0,0,5, 64,17,0,0, 10,0,0,1, 10,0,0,2, 0,0,0,0, 0,0,0,0] :: u8 list"
  let ?b = "[0x45,0,0,28, 0,0,0,80, 64,17,0,0, 10,0,0,1, 10,0,0,2, 0,0,0,0, 0,0,0,0] :: u8 list"
  have a: "ipv4_valid ?a" "header_length ?a \<le> length ?a" "frag_offset ?a \<noteq> 0"
      "frag_offset ?a < 10"
    by (simp_all add: ipv4_valid_def version_def total_length_def header_length_def
          frag_offset_def frag_word_def)
  have b: "ipv4_valid ?b" "header_length ?b \<le> length ?b" "frag_offset ?b \<noteq> 0"
      "80 \<le> frag_offset ?b"
    by (simp_all add: ipv4_valid_def version_def total_length_def header_length_def
          frag_offset_def frag_word_def)
  from C3_later_fragment [OF a(1,2,3), of QDecode_zero] a(4)
       C3_later_fragment [OF b(1,2,3), of QDecode_zero] b(4)
  show ?thesis
    by (simp add: QDecode_zero_def)
qed

text \<open>
  C3 as stated fails: a fragment offset of 7, at the threshold the claim gives, is
  classified as Junk; and a record that held ports before the call still holds them when the
  call classifies a fragment.
\<close>

theorem C3_counterexample:
  "Decode QDecode_zero
     [0x45,0,0,28, 0,0,0,7, 64,17,0,0, 10,0,0,1, 10,0,0,2, 0,0,0,0, 0,0,0,0]
   = Some \<lparr>qb = None, subofs = 20, IPProto = Junk, SrcIP = 0x0A000001, DstIP = 0x0A000002,
           SrcPort = 0, DstPort = 0, TCPFlags = 0\<rparr>
   \<and> Decode \<lparr>qb = None, subofs = 20, IPProto = TCP, SrcIP = 0x0A000001, DstIP = 0x0A000002,
             SrcPort = 5000, DstPort = 443, TCPFlags = 2\<rparr>
     [0x45,0,0,28, 0,0,0,80, 64,17,0,0, 10,0,0,1, 10,0,0,2, 0,0,0,0, 0,0,0,0]
   = Some \<lparr>qb = None, subofs = 20, IPProto = Fragment, SrcIP = 0x0A000001, DstIP = 0x0A000002,
           SrcPort = 5000, DstPort = 443, TCPFlags = 2\<rparr>"
proof -
  let ?a = "[0x45,0,0,28, 0,0,0,7, 64,17,0,0, 10,0,0,1, 10,0,0,2, 0,0,0,0, 0,0,0,0] :: u8 list"
  let ?b = "[0x45,0,0,28, 0,0,0,80, 64,17,0,0, 10,0,0,1, 10,0,0,2, 0,0,0,0, 0,0,0,0] :: u8 list"
  have a: "ipv4_valid ?a" "header_length ?a \<le> length ?a"
    by (simp_all add: ipv4_valid_def version_def total_length_def header_length_def)
  have b: "ipv4_valid ?b" "header_length ?b \<le> length ?b"
    by (simp_all add: ipv4_valid_def version_def total_length_def header_length_def)
  show ?thesis
    by (simp add: Decode_valid [OF a] Decode_valid [OF b] frag_offset_def frag_word_def
          header_length_def src_addr_def dst_addr_def QDecode_zero_def)
qed

text \<open>
  C4. A buffer shorter than 20 bytes, and a buffer whose declared IPv4 total length
  (bytes 2 and 3, big-endian) exceeds its actual length, is classified as Junk: \<open>Decode\<close>
  returns the record with the tag Junk and the view cleared.
\<close>

theorem C4_short_or_truncated_is_Junk:
  assumes "length b < 20 \<or> length b < total_length b"
  shows "Decode q b = Some (q\<lparr>qb := None, IPProto := Junk\<rparr>)"
  using assms Decode_short [of b q] Decode_truncated [of b q]
  by (cases "length b < 20") (simp_all add: not_less)

theorem C4_witness:
  "length ([0x45, 0, 0] :: u8 list) < 20
   \<and> Decode QDecode_zero [0x45, 0, 0] = Some (QDecode_zero\<lparr>qb := None, IPProto := Junk\<rparr>)
   \<and> length ([0x45,0,0,40, 0,0,0,0, 64,17,0,0, 10,0,0,1, 10,0,0,2] :: u8 list)
         < total_length [0x45,0,0,40, 0,0,0,0, 64,17,0,0, 10,0,0,1, 10,0,0,2]
   \<and> Decode QDecode_zero [0x45,0,0,40, 0,0,0,0, 64,17,0,0, 10,0,0,1, 10,0,0,2]
         = Some (QDecode_zero\<lparr>qb := None, IPProto := Junk\<rparr>)"
  using C4_short_or_truncated_is_Junk [of "[0x45, 0, 0]" QDecode_zero]
        C4_short_or_truncated_is_Junk
          [of "[0x45,0,0,40, 0,0,0,0, 64,17,0,0, 10,0,0,1, 10,0,0,2]" QDecode_zero]
  by (simp add: total_length_def)

text \<open>
  C5. A buffer whose 16-bit word number \<open>k\<close> (bytes \<open>2k\<close> and \<open>2k + 1\<close>, the words
  \<open>ipChecksum\<close> adds) holds the checksum of the buffer computed with that word zeroed has
  checksum zero. So have the 20 header bytes and the whole packet that \<open>GenICMP\<close>
  returns, whose checksum fields are words 5 and 11.
\<close>

theorem C5_checksum_self_verification:
  "(2 * k + 1 < length b \<and> ipChecksum (b[2 * k := 0, 2 * k + 1 := 0]) = Some (be16_at b (2 * k))
      \<longrightarrow> ipChecksum b = Some 0)
   \<and> (GenICMP s d i t c p = Some (Some out)
      \<longrightarrow> ipChecksum (take 20 out) = Some 0 \<and> ipChecksum out = Some 0)"
proof (intro conjI impI)
  assume "2 * k + 1 < length b \<and> ipChecksum (b[2 * k := 0, 2 * k + 1 := 0]) = Some (be16_at b (2 * k))"
  then show "ipChecksum b = Some 0"
    using checksum_verifies [of k b] by simp
next
  assume g: "GenICMP s d i t c p = Some (Some out)"
  then show "ipChecksum (take 20 out) = Some 0"
    by (rule GenICMP_cases) (simp add: layout_header_checksum)
  from g show "ipChecksum out = Some 0"
    by (rule GenICMP_cases) (simp add: layout_packet_checksum)
qed

theorem C5_witness:
  "ipChecksum [0x45,0,0,28, 0,42,0,0, 64,1,0x6A,0xA4, 1,2,3,4, 5,6,7,8] = Some 0
   \<and> ipChecksum (take 20 [0x45,0,0,28, 0,42,0,0, 64,1,0x6A,0xA4, 1,2,3,4, 5,6,7,8, 8,0,0xF3,0xF9, 1,2,3,4])
       = Some 0
   \<and> ipChecksum [0x45,0,0,28, 0,42,0,0, 64,1,0x6A,0xA4, 1,2,3,4, 5,6,7,8, 8,0,0xF3,0xF9, 1,2,3,4]
       = Some 0"
  using C5_checksum_self_verification
          [of 5 "[0x45,0,0,28, 0,42,0,0, 64,1,0x6A,0xA4, 1,2,3,4, 5,6,7,8]"
              "0x01020304" "0x05060708" 42 8 0 "[1, 2, 3, 4]"
              "[0x45,0,0,28, 0,42,0,0, 64,1,0x6A,0xA4, 1,2,3,4, 5,6,7,8, 8,0,0xF3,0xF9, 1,2,3,4]"]
        GenICMP_example ipChecksum_example
  by (simp add: be16_at_def list_update_Cons_numeral)

text \<open>
  C6. For a payload of 4 to 65511 bytes, \<open>GenICMP\<close> with source 1.2.3.4, destination
  5.6.7.8, identification 42, type 8 and code 0 returns a packet; decoding it into any record
  gives the tag ICMP, the source 1.2.3.4, the destination 5.6.7.8, and a record on which
  \<open>IsEchoRequest\<close> is true.
\<close>

theorem C6_roundtrip:
  assumes "4 \<le> length p" "length p \<le> 65511"
  shows "\<exists>out r. GenICMP 0x01020304 0x05060708 42 8 0 p = Some (Some out)
           \<and> Decode q out = Some r
           \<and> IPProto r = ICMP \<and> SrcIP r = 0x01020304 \<and> DstIP r = 0x05060708
           \<and> IsEchoRequest r = Some True"
  using GenICMP_ok [OF assms, of "0x01020304" "0x05060708" 42 8 0]
  by (simp add: Decode_layout [OF assms] IsEchoRequest_layout [OF assms(1)] ICMPEchoRequest_def)

theorem C6_witness:
  "4 \<le> length [1, 2, 3, 4 :: u8] \<and> length [1, 2, 3, 4 :: u8] \<le> 65511
   \<and> (\<exists>out r. GenICMP 0x01020304 0x05060708 42 8 0 [1, 2, 3, 4] = Some (Some out)
           \<and> Decode QDecode_zero out = Some r
           \<and> IPProto r = ICMP \<and> SrcIP r = 0x01020304 \<and> DstIP r = 0x05060708
           \<and> IsEchoRequest r = Some True)"
  using C6_roundtrip [of "[1, 2, 3, 4]" QDecode_zero]
  by simp

text \<open>
  C7. \<open>GenICMP\<close> returns nil exactly when the payload is shorter than 4 bytes or longer
  than 65511 bytes; otherwise it returns a packet of 24 bytes plus the payload. It never panics.
\<close>

theorem C7_GenICMP_absent_iff:
  "(length p < 4 \<or> 65511 < length p \<longrightarrow> GenICMP s d i t c p = Some None)
   \<and> (4 \<le> length p \<and> length p \<le> 65511 \<longrightarrow>
        map_option (map_option length) (GenICMP s d i t c p) = Some (Some (24 + length p)))"
  using GenICMP_absent [of p s d i t c] GenICMP_ok [of p s d i t c]
  by simp

theorem C7_witness:
  "GenICMP 1 2 3 8 0 [1, 2, 3] = Some None
   \<and> GenICMP 1 2 3 8 0 (replicate 65512 0) = Some None
   \<and> map_option (map_option length) (GenICMP 1 2 3 8 0 [1, 2, 3, 4]) = Some (Some 28)
   \<and> map_option (map_option length) (GenICMP 1 2 3 8 0 (replicate 65511 0)) = Some (Some 65535)"
  using C7_GenICMP_absent_iff [of "[1, 2, 3]" 1 2 3 8 0]
        C7_GenICMP_absent_iff [of "replicate 65512 0" 1 2 3 8 0]
        C7_GenICMP_absent_iff [of "[1, 2, 3, 4]" 1 2 3 8 0]
        C7_GenICMP_absent_iff [of "replicate 65511 0" 1 2 3 8 0]
  by simp

text \<open>
  C8 (as amended). For a record that \<open>Decode\<close> returned and on which \<open>IsEchoRequest\<close> is
  true, whose buffer, trimmed to its declared IPv4 length, holds between 4 and 65511 bytes
  from 4 bytes past the sub-header start: \<open>EchoRespond\<close> returns a packet with a 20-byte
  header, whose source and destination are the destination and source of the record, whose
  ICMP type and code are 0, whose two bytes at sub-header offset 4 are those of the request,
  and whose bytes after the 24 header bytes are the bytes of the trimmed request from 4 bytes
  past the sub-header start onward.
\<close>

theorem C8_echo_reply:
  assumes "Decode q0 b = Some q" "IsEchoRequest q = Some True"
    and "subofs q + 8 \<le> total_length b" "total_length b \<le> subofs q + 65515"
  shows "\<exists>out. EchoRespond q = Some (Some out)
           \<and> header_length out = 20
           \<and> src_addr out = DstIP q \<and> dst_addr out = SrcIP q
           \<and> out ! 20 = 0 \<and> out ! 21 = 0
           \<and> be16_at out 24 = be16_at b (subofs q + 4)
           \<and> drop 24 out = drop (subofs q + 4) (take (total_length b) b)"
proof -
  let ?p = "drop (subofs q + 4) (take (total_length b) b)"
  from Decode_ICMP [OF assms(1) IsEchoRequest_ICMP [OF assms(2)]]
  have v: "ipv4_valid b" and qb: "qb q = Some b" and l: "subofs q + 8 \<le> length b"
    by simp_all
  from v have tl: "total_length b \<le> length b"
    by (simp add: ipv4_valid_def)
  have n: "length ?p = total_length b - (subofs q + 4)"
    using tl by simp
  have r: "4 \<le> length ?p" "length ?p \<le> 65511"
    using assms(3,4) tl by (simp_all add: n)
  have e: "EchoRespond q = GenICMP (DstIP q) (SrcIP q) (be16_at b (subofs q + 4)) 0 0 ?p"
    using v qb l assms(3) by (intro EchoRespond_eq) simp_all
  have i: "be16_at ?p 0 = be16_at b (subofs q + 4)"
    using assms(3) tl by (simp add: be16_at_def)
  from r have "2 \<le> length ?p"
    by simp
  then show ?thesis
    unfolding e GenICMP_ok [OF r]
    by (simp add: layout_fields layout_payload i del: length_drop length_take)
qed

theorem C8_witness:
  "(\<exists>out. EchoRespond
        \<lparr>qb = Some [0x45,0,0,28, 0,0,0,0, 64,1,0,0, 10,0,0,1, 10,0,0,2, 8,0,0,0, 0,7,0,1],
         subofs = 20, IPProto = ICMP, SrcIP = 0x0A000001, DstIP = 0x0A000002,
         SrcPort = 0, DstPort = 0, TCPFlags = 0\<rparr> = Some (Some out)
      \<and> header_length out = 20 \<and> src_addr out = 0x0A000002 \<and> dst_addr out = 0x0A000001
      \<and> out ! 20 = 0 \<and> out ! 21 = 0 \<and> be16_at out 24 = 7 \<and> drop 24 out = [0, 7, 0, 1])"
proof -
  let ?b = "[0x45,0,0,28, 0,0,0,0, 64,1,0,0, 10,0,0,1, 10,0,0,2, 8,0,0,0, 0,7,0,1] :: u8 list"
  let ?q = "\<lparr>qb = Some ?b, subofs = 20, IPProto = ICMP, SrcIP = 0x0A000001, DstIP = 0x0A000002,
             SrcPort = 0, DstPort = 0, TCPFlags = 0\<rparr>"
  have v: "ipv4_valid ?b" "header_length ?b \<le> length ?b"
    by (simp_all add: ipv4_valid_def version_def total_length_def header_length_def)
  have d: "Decode QDecode_zero ?b = Some ?q"
    by (simp add: Decode_valid [OF v] frag_offset_def frag_word_def
          header_length_def src_addr_def dst_addr_def QDecode_zero_def)
  have e: "IsEchoRequest ?q = Some True"
    by (simp add: IsEchoRequest_def buf_def index_def ICMPEchoRequest_def)
  have t: "subofs ?q + 8 \<le> total_length ?b" "total_length ?b \<le> subofs ?q + 65515"
    by (simp_all add: total_length_def)
  from C8_echo_reply [OF d e t] show ?thesis
    by (simp add: total_length_def be16_at_def)
qed

text \<open>
  C8 as stated fails: this 28-byte echo request declares a total length of 24, so the
  trimmed buffer holds no byte past the ICMP header; \<open>Decode\<close> classifies it as ICMP,
  \<open>IsEchoRequest\<close> is true, and \<open>EchoRespond\<close> returns nil.
\<close>

theorem C8_counterexample:
  "Decode QDecode_zero [0x45,0,0,24, 0,0,0,0, 64,1,0,0, 10,0,0,1, 10,0,0,2, 8,0,0,0, 0,7,0,1]
     = Some \<lparr>qb = Some [0x45,0,0,24, 0,0,0,0, 64,1,0,0, 10,0,0,1, 10,0,0,2, 8,0,0,0, 0,7,0,1],
             subofs = 20, IPProto = ICMP, SrcIP = 0x0A000001, DstIP = 0x0A000002,
             SrcPort = 0, DstPort = 0, TCPFlags = 0\<rparr>
   \<and> IsEchoRequest
        \<lparr>qb = Some [0x45,0,0,24, 0,0,0,0, 64,1,0,0, 10,0,0,1, 10,0,0,2, 8,0,0,0, 0,7,0,1],
         subofs = 20, IPProto = ICMP, SrcIP = 0x0A000001, DstIP = 0x0A000002,
         SrcPort = 0, DstPort = 0, TCPFlags = 0\<rparr> = Some True
   \<and> EchoRespond
        \<lparr>qb = Some [0x45,0,0,24, 0,0,0,0, 64,1,0,0, 10,0,0,1, 10,0,0,2, 8,0,0,0, 0,7,0,1],
         subofs = 20, IPProto = ICMP, SrcIP = 0x0A000001, DstIP = 0x0A000002,
         SrcPort = 0, DstPort = 0, TCPFlags = 0\<rparr> = Some None"
proof -
  let ?b = "[0x45,0,0,24, 0,0,0,0, 64,1,0,0, 10,0,0,1, 10,0,0,2, 8,0,0,0, 0,7,0,1] :: u8 list"
  let ?q = "\<lparr>qb = Some ?b, subofs = 20, IPProto = ICMP, SrcIP = 0x0A000001, DstIP = 0x0A000002,
             SrcPort = 0, DstPort = 0, TCPFlags = 0\<rparr>"
  have v: "ipv4_valid ?b" "header_length ?b \<le> length ?b"
    by (simp_all add: ipv4_valid_def version_def total_length_def header_length_def)
  have d: "Decode QDecode_zero ?b = Some ?q"
    by (simp add: Decode_valid [OF v] frag_offset_def frag_word_def
          header_length_def src_addr_def dst_addr_def QDecode_zero_def)
  have e: "IsEchoRequest ?q = Some True"
    by (simp add: IsEchoRequest_def buf_def index_def ICMPEchoRequest_def)
  have "EchoRespond ?q = GenICMP (DstIP ?q) (SrcIP ?q) (be16_at ?b (subofs ?q + 4)) 0 0
             (drop (subofs ?q + 4) (take (total_length ?b) ?b))"
    by (rule EchoRespond_eq [OF v(1)]) (simp_all add: total_length_def)
  then have r: "EchoRespond ?q = Some None"
    by (simp add: total_length_def GenICMP_absent)
  from d e r show ?thesis
    by simp
qed

text \<open>
  C9. The 28-byte UDP example of the spec, with any type-of-service, identification,
  time-to-live, checksum and UDP length bytes and a zero fragmentation word, decoded into
  any record: the tag is UDP, the addresses are 10.0.0.1 and 10.0.0.2, the ports 5000 and 53,
  and the rendering is as the spec gives it.
\<close>

theorem C9_udp_example:
  "\<exists>r. Decode q [0x45,tos,0,28, id1,id2,0,0, ttl,17,c1,c2, 10,0,0,1, 10,0,0,2,
                  0x13,0x88,0,53, l1,l2,u1,u2] = Some r
      \<and> IPProto r = UDP \<and> SrcIP r = 0x0A000001 \<and> DstIP r = 0x0A000002
      \<and> SrcPort r = 5000 \<and> DstPort r = 53
      \<and> QDecode_String r = ''UDP{10.0.0.1:5000 > 10.0.0.2:53}''"
proof -
  let ?b = "[0x45,tos,0,28, id1,id2,0,0, ttl,17,c1,c2, 10,0,0,1, 10,0,0,2,
            0x13,0x88,0,53, l1,l2,u1,u2] :: u8 list"
  have v: "ipv4_valid ?b" "header_length ?b \<le> length ?b"
    by (simp_all add: ipv4_valid_def version_def total_length_def header_length_def)
  show ?thesis
    by (simp add: Decode_valid [OF v] frag_offset_def frag_word_def
          header_length_def src_addr_def dst_addr_def be16_at_def
          QDecode_String_def writeIPPort_def WriteUint_def WriteByte_def WriteString_def
          strbuilder_Get_def decimal.simps)
qed

text \<open>
  C10. After a call of \<open>Decode\<close> that returns, the record's view of the buffer is non-nil
  only when the tag is ICMP, TCP or UDP; with the tag Junk or Fragment the view is nil, so
  the record has no byte to read, and \<open>Trim\<close> panics on it.
\<close>

theorem C10_view_only_when_classified:
  assumes "Decode q b = Some r"
  shows "(qb r \<noteq> None \<longrightarrow> IPProto r = ICMP \<or> IPProto r = TCP \<or> IPProto r = UDP)
       \<and> (IPProto r = Junk \<or> IPProto r = Fragment \<longrightarrow> qb r = None \<and> buf r = [] \<and> Trim r = None)"
proof -
  have nil: "qb r = None \<Longrightarrow> buf r = [] \<and> Trim r = None" for r :: QDecode
    by (simp add: buf_def Trim_def slice_def)
  from assms show ?thesis
  proof (cases rule: Decode_cases)
    case junk
    with nil [of r] show ?thesis by simp
  next
    case valid
    from Decode_valid [OF valid, of q] assms
    have "(qb r \<noteq> None \<longrightarrow> IPProto r = ICMP \<or> IPProto r = TCP \<or> IPProto r = UDP)
        \<and> (IPProto r = Junk \<or> IPProto r = Fragment \<longrightarrow> qb r = None)"
      by (auto simp: Let_def split: if_splits)
    with nil [of r] show ?thesis by auto
  qed
qed

theorem C10_witness:
  "Decode QDecode_zero [0x45,0,0,28, 0,0,0,80, 64,17,0,0, 10,0,0,1, 10,0,0,2, 0,0,0,0, 0,0,0,0]
     = Some \<lparr>qb = None, subofs = 20, IPProto = Fragment, SrcIP = 0x0A000001, DstIP = 0x0A000002,
             SrcPort = 0, DstPort = 0, TCPFlags = 0\<rparr>
   \<and> Trim \<lparr>qb = None, subofs = 20, IPProto = Fragment, SrcIP = 0x0A000001, DstIP = 0x0A000002,
             SrcPort = 0, DstPort = 0, TCPFlags = 0\<rparr> = None"
proof -
  let ?b = "[0x45,0,0,28, 0,0,0,80, 64,17,0,0, 10,0,0,1, 10,0,0,2, 0,0,0,0, 0,0,0,0] :: u8 list"
  let ?r = "\<lparr>qb = None, subofs = 20, IPProto = Fragment, SrcIP = 0x0A000001, DstIP = 0x0A000002,
             SrcPort = 0, DstPort = 0, TCPFlags = 0\<rparr>"
  have "ipv4_valid ?b" "header_length ?b \<le> length ?b"
    by (simp_all add: ipv4_valid_def version_def total_length_def header_length_def)
  from Decode_valid [OF this, of QDecode_zero]
  have d: "Decode QDecode_zero ?b = Some ?r"
    by (simp add: frag_offset_def frag_word_def header_length_def src_addr_def dst_addr_def
          QDecode_zero_def)
  from C10_view_only_when_classified [OF d] d show ?thesis
    by simp
qed

end
